theory Spec2Isabelle
  imports Complex_Main "HOL-Library.AList"
begin

section \<open>JavaScript values as the server form handles them\<close>

text \<open>
  The server form (\<^verbatim>\<open>ServerForm\<close>) handles its values as \<^verbatim>\<open>Record<string, any>\<close>: a port
  or a ratio may be a number, a string typed into an input, or be missing. The numbers are
  the runtime's; a finite one is modelled by its real value (the two zeros are one value,
  which no test of the form tells apart), the three others are \<open>NaN\<close> and the infinities.
\<close>

datatype jsnum = NaN | PInf | NInf | Fin real

datatype jsval = JUndefined | JNull | JBool bool | JNum jsnum | JStr string

text \<open>
  A protocol config is a flat object: its properties, in insertion order, each a primitive
  (\<^verbatim>\<open>type\<close>, \<^verbatim>\<open>port\<close>, \<^verbatim>\<open>cipher\<close>, \<^verbatim>\<open>transport\<close>, \<^verbatim>\<open>host\<close>, ...).
\<close>

type_synonym jsobj = "(string \<times> jsval) list"

text \<open>\<^verbatim>\<open>p.k\<close>: a missing property reads as \<^verbatim>\<open>undefined\<close>.\<close>

definition get_prop :: "jsobj \<Rightarrow> string \<Rightarrow> jsval" where
  "get_prop p k = (case map_of p k of None \<Rightarrow> JUndefined | Some v \<Rightarrow> v)"

text \<open>\<^verbatim>\<open>{ ...p, k: v }\<close>: the property keeps its place when \<open>p\<close> has it, and is added last otherwise.\<close>

definition spread_with :: "jsobj \<Rightarrow> string \<Rightarrow> jsval \<Rightarrow> jsobj" where
  "spread_with p k v = AList.update k v p"

text \<open>Truthiness, as \<^verbatim>\<open>&&\<close>, \<^verbatim>\<open>||\<close> and \<^verbatim>\<open>if\<close> test it.\<close>

fun truthy :: "jsval \<Rightarrow> bool" where
  "truthy JUndefined = False"
| "truthy JNull = False"
| "truthy (JBool b) = b"
| "truthy (JNum NaN) = False"
| "truthy (JNum (Fin r)) = (r \<noteq> 0)"
| "truthy (JNum n) = True"
| "truthy (JStr s) = (s \<noteq> [])"

text \<open>
  \<^verbatim>\<open>Number(v)\<close>. What a string converts to is the runtime's \<^verbatim>\<open>StringToNumber\<close>, which is
  not code of the form: it is the parameter \<open>StringToNumber\<close> of everything below.
\<close>

fun Number :: "(string \<Rightarrow> jsnum) \<Rightarrow> jsval \<Rightarrow> jsnum" where
  "Number StringToNumber JUndefined = NaN"
| "Number StringToNumber JNull = Fin 0"
| "Number StringToNumber (JBool b) = (if b then Fin 1 else Fin 0)"
| "Number StringToNumber (JNum n) = n"
| "Number StringToNumber (JStr s) = StringToNumber s"

fun isFinite :: "jsnum \<Rightarrow> bool" where
  "isFinite (Fin r) = True"
| "isFinite n = False"

text \<open>\<^verbatim>\<open>a < b\<close> and \<^verbatim>\<open>a <= b\<close> on numbers: every comparison with \<open>NaN\<close> is false.\<close>

fun js_lt :: "jsnum \<Rightarrow> jsnum \<Rightarrow> bool" where
  "js_lt NaN b = False"
| "js_lt a NaN = False"
| "js_lt (Fin a) (Fin b) = (a < b)"
| "js_lt a PInf = (a \<noteq> PInf)"
| "js_lt NInf b = (b \<noteq> NInf)"
| "js_lt a b = False"

fun js_le :: "jsnum \<Rightarrow> jsnum \<Rightarrow> bool" where
  "js_le NaN b = False"
| "js_le a NaN = False"
| "js_le a b = (\<not> js_lt b a)"

text \<open>\<^verbatim>\<open>arr[index]\<close>: out of range reads as \<^verbatim>\<open>undefined\<close>, here \<open>None\<close>.\<close>

fun at_index :: "'a list \<Rightarrow> nat \<Rightarrow> 'a option" where
  "at_index [] n = None"
| "at_index (x # xs) 0 = Some x"
| "at_index (x # xs) (Suc n) = at_index xs n"

text \<open>\<^verbatim>\<open>arr.filter((p, index) => f(p, index))\<close>: the callback sees each element with its index.\<close>

fun filter_from :: "nat \<Rightarrow> ('a \<Rightarrow> nat \<Rightarrow> bool) \<Rightarrow> 'a list \<Rightarrow> 'a list" where
  "filter_from i f [] = []"
| "filter_from i f (x # xs) =
     (if f x i then x # filter_from (Suc i) f xs else filter_from (Suc i) f xs)"

definition filter_indexed :: "('a \<Rightarrow> nat \<Rightarrow> bool) \<Rightarrow> 'a list \<Rightarrow> 'a list" where
  "filter_indexed f xs = filter_from 0 f xs"

section \<open>The form state\<close>

text \<open>
  \<^verbatim>\<open>ServerFormValues\<close>: what the form holds, and also what \<^verbatim>\<open>onSubmit\<close> receives.
  \<open>protocols = None\<close> is a missing array.
\<close>

record form_values =
  name :: jsval
  address :: jsval
  country :: jsval
  city :: jsval
  ratio :: jsval
  protocols :: "jsobj list option"

text \<open>\<^verbatim>\<open>Partial<ServerFormValues>\<close>, the \<^verbatim>\<open>initialValues\<close> prop: \<open>None\<close> is a missing property.\<close>

record partial_form_values =
  init_name :: "jsval option"
  init_address :: "jsval option"
  init_country :: "jsval option"
  init_city :: "jsval option"
  init_ratio :: "jsval option"
  init_protocols :: "jsobj list option"

text \<open>
  The component's state: the sheet's \<^verbatim>\<open>open\<close> flag, the \<^verbatim>\<open>protocolsEnabled\<close> list, the
  form (its current values and the default values that \<^verbatim>\<open>form.reset()\<close> goes back to), and
  what the component has done to the outside: the error toasts shown and the values handed
  to \<^verbatim>\<open>onSubmit\<close>, oldest first.
\<close>

record editor =
  sheet_open :: bool
  protocolsEnabled :: "string list"
  form_current :: form_values
  form_defaults :: form_values
  toasts :: "string list"
  submitted :: "form_values list"

text \<open>
  \<^verbatim>\<open>form.reset(v)\<close> of react-hook-form: with values, they become the form's values and its
  default values; with none, the form goes back to its default values.
\<close>

fun form_reset :: "form_values option \<Rightarrow> editor \<Rightarrow> editor" where
  "form_reset (Some v) s = s\<lparr>form_current := v, form_defaults := v\<rparr>"
| "form_reset None s = s\<lparr>form_current := form_defaults s\<rparr>"

text \<open>A property that \<^verbatim>\<open>...initialValues\<close> overrides when \<^verbatim>\<open>initialValues\<close> has it.\<close>

definition or_default :: "jsval option \<Rightarrow> jsval \<Rightarrow> jsval" where
  "or_default v d = (case v of None \<Rightarrow> d | Some x \<Rightarrow> x)"

text \<open>
  The state the component starts in: the sheet closed, nothing enabled, and the form on the
  default values \<^verbatim>\<open>{ name: '', address: '', country: '', city: '', ratio: 1, protocols: [], ...initialValues }\<close>.
\<close>

definition mounted :: "partial_form_values option \<Rightarrow> editor" where
  "mounted initialValues =
     (let defaultValues =
        (case initialValues of
           None \<Rightarrow>
             \<lparr> name = JStr '''', address = JStr '''', country = JStr '''', city = JStr '''',
               ratio = JNum (Fin 1), protocols = Some [] \<rparr>
         | Some iv \<Rightarrow>
             \<lparr> name = or_default (init_name iv) (JStr ''''),
               address = or_default (init_address iv) (JStr ''''),
               country = or_default (init_country iv) (JStr ''''),
               city = or_default (init_city iv) (JStr ''''),
               ratio = or_default (init_ratio iv) (JNum (Fin 1)),
               protocols = (case init_protocols iv of None \<Rightarrow> Some [] | Some ps \<Rightarrow> Some ps) \<rparr>)
      in \<lparr> sheet_open = False, protocolsEnabled = [], form_current = defaultValues,
           form_defaults = defaultValues, toasts = [], submitted = [] \<rparr>)"

section \<open>Loading an existing node: the effect on \<^verbatim>\<open>initialValues\<close>\<close>

text \<open>\<^verbatim>\<open>initialValues.protocols?.find((p) => p.type === type)\<close>\<close>

definition find_protocol :: "partial_form_values \<Rightarrow> string \<Rightarrow> jsobj option" where
  "find_protocol initialValues type =
     (case init_protocols initialValues of
        None \<Rightarrow> None
      | Some ps \<Rightarrow> find (\<lambda>p. get_prop p ''type'' = JStr type) ps)"

text \<open>\<^verbatim>\<open>protocol && protocol.port && Number(protocol.port) > 0\<close>\<close>

definition enabled_on_load :: "(string \<Rightarrow> jsnum) \<Rightarrow> partial_form_values \<Rightarrow> string \<Rightarrow> bool" where
  "enabled_on_load StringToNumber initialValues type =
     (case find_protocol initialValues type of
        None \<Rightarrow> False
      | Some protocol \<Rightarrow>
          truthy (get_prop protocol ''port'') \<and>
          js_lt (Fin 0) (Number StringToNumber (get_prop protocol ''port'')))"

definition enabledProtocols ::
  "(string \<Rightarrow> jsnum) \<Rightarrow> string list \<Rightarrow> partial_form_values \<Rightarrow> string list" where
  "enabledProtocols StringToNumber PROTOCOLS initialValues =
     filter (enabled_on_load StringToNumber initialValues) PROTOCOLS"

text \<open>\<^verbatim>\<open>existingProtocol || getProtocolDefaultConfig(type)\<close>: an object is always truthy.\<close>

definition slot_for ::
  "(string \<Rightarrow> jsobj) \<Rightarrow> partial_form_values \<Rightarrow> string \<Rightarrow> jsobj" where
  "slot_for getProtocolDefaultConfig initialValues type =
     (case find_protocol initialValues type of
        Some existingProtocol \<Rightarrow> existingProtocol
      | None \<Rightarrow> getProtocolDefaultConfig type)"

text \<open>
  The values the effect resets the form to:
  \<^verbatim>\<open>{ name: '', address: '', country: '', city: '', ratio: 1, ...initialValues, protocols: PROTOCOLS.map(...) }\<close>
\<close>

definition loaded_values ::
  "string list \<Rightarrow> (string \<Rightarrow> jsobj) \<Rightarrow> partial_form_values \<Rightarrow> form_values" where
  "loaded_values PROTOCOLS getProtocolDefaultConfig initialValues =
     \<lparr> name = or_default (init_name initialValues) (JStr ''''),
       address = or_default (init_address initialValues) (JStr ''''),
       country = or_default (init_country initialValues) (JStr ''''),
       city = or_default (init_city initialValues) (JStr ''''),
       ratio = or_default (init_ratio initialValues) (JNum (Fin 1)),
       protocols = Some (map (slot_for getProtocolDefaultConfig initialValues) PROTOCOLS) \<rparr>"

text \<open>The effect itself: it does nothing without \<^verbatim>\<open>initialValues\<close>.\<close>

definition useEffect ::
  "(string \<Rightarrow> jsnum) \<Rightarrow> string list \<Rightarrow> (string \<Rightarrow> jsobj) \<Rightarrow>
   partial_form_values option \<Rightarrow> editor \<Rightarrow> editor" where
  "useEffect StringToNumber PROTOCOLS getProtocolDefaultConfig initialValues s =
     (case initialValues of
        None \<Rightarrow> s
      | Some iv \<Rightarrow>
          form_reset (Some (loaded_values PROTOCOLS getProtocolDefaultConfig iv))
            (s\<lparr>protocolsEnabled := enabledProtocols StringToNumber PROTOCOLS iv\<rparr>))"

section \<open>Creating a node: the trigger button\<close>

definition onClick ::
  "string list \<Rightarrow> (string \<Rightarrow> jsobj) \<Rightarrow> partial_form_values option \<Rightarrow> editor \<Rightarrow> editor" where
  "onClick PROTOCOLS getProtocolDefaultConfig initialValues s =
     (let s1 = (case initialValues of
                  None \<Rightarrow>
                    (let full = map getProtocolDefaultConfig PROTOCOLS in
                     (form_reset
                        (Some \<lparr> name = JStr '''', address = JStr '''', country = JStr '''',
                                city = JStr '''', ratio = JNum (Fin 1), protocols = Some full \<rparr>) s)
                     \<lparr>protocolsEnabled := []\<rparr>)
                | Some iv \<Rightarrow> s)
      in s1\<lparr>sheet_open := True\<rparr>)"

section \<open>The enabled switch of a protocol tab\<close>

definition onCheckedChange :: "string \<Rightarrow> bool \<Rightarrow> editor \<Rightarrow> editor" where
  "onCheckedChange type checked s =
     (if checked then s\<lparr>protocolsEnabled := protocolsEnabled s @ [type]\<rparr>
      else s\<lparr>protocolsEnabled := filter (\<lambda>p. p \<noteq> type) (protocolsEnabled s)\<rparr>)"

section \<open>Submitting: \<^verbatim>\<open>handleSubmit\<close>\<close>

text \<open>
  The callback of the filter: is the entry at \<open>index\<close> kept? The entries of the array are
  objects, so \<^verbatim>\<open>p?.port\<close> reads the port of \<open>p\<close>.
\<close>

definition keeps ::
  "(string \<Rightarrow> jsnum) \<Rightarrow> string list \<Rightarrow> string list \<Rightarrow> jsobj \<Rightarrow> nat \<Rightarrow> bool" where
  "keeps StringToNumber PROTOCOLS enabled p index =
     (let port = Number StringToNumber (get_prop p ''port'') in
      case at_index PROTOCOLS index of
        None \<Rightarrow> False
      | Some protocolType \<Rightarrow>
          protocolType \<noteq> [] \<and>
          protocolType \<in> set enabled \<and>
          isFinite port \<and>
          js_lt (Fin 0) port \<and>
          js_le port (Fin 65535))"

text \<open>\<^verbatim>\<open>{ ...p, port: Number(p.port) }\<close>\<close>

definition with_numeric_port :: "(string \<Rightarrow> jsnum) \<Rightarrow> jsobj \<Rightarrow> jsobj" where
  "with_numeric_port StringToNumber p =
     spread_with p ''port'' (JNum (Number StringToNumber (get_prop p ''port'')))"

text \<open>The list \<^verbatim>\<open>filtered\<close>; \<^verbatim>\<open>values?.protocols || []\<close> is empty when the array is missing.\<close>

definition filtered ::
  "(string \<Rightarrow> jsnum) \<Rightarrow> string list \<Rightarrow> string list \<Rightarrow> form_values \<Rightarrow> jsobj list" where
  "filtered StringToNumber PROTOCOLS enabled values =
     map (with_numeric_port StringToNumber)
       (filter_indexed (keeps StringToNumber PROTOCOLS enabled)
          (case protocols values of None \<Rightarrow> [] | Some ps \<Rightarrow> ps))"

text \<open>\<^verbatim>\<open>Number(values.ratio || 1)\<close>\<close>

definition submitted_ratio :: "(string \<Rightarrow> jsnum) \<Rightarrow> jsval \<Rightarrow> jsnum" where
  "submitted_ratio StringToNumber r =
     Number StringToNumber (if truthy r then r else JNum (Fin 1))"

text \<open>The object \<^verbatim>\<open>result\<close> handed to \<^verbatim>\<open>onSubmit\<close>.\<close>

definition result_of ::
  "(string \<Rightarrow> jsnum) \<Rightarrow> string list \<Rightarrow> string list \<Rightarrow> form_values \<Rightarrow> form_values" where
  "result_of StringToNumber PROTOCOLS enabled values =
     \<lparr> name = name values,
       address = address values,
       country = country values,
       city = city values,
       ratio = JNum (submitted_ratio StringToNumber (ratio values)),
       protocols = Some (filtered StringToNumber PROTOCOLS enabled values) \<rparr>"

text \<open>
  \<^verbatim>\<open>handleSubmit(values)\<close>, with \<^verbatim>\<open>onSubmit\<close> the caller's commit, which answers whether it
  succeeded. The toast shows the message of the key \<^verbatim>\<open>validation_failed\<close>.
\<close>

definition handleSubmit ::
  "(string \<Rightarrow> jsnum) \<Rightarrow> string list \<Rightarrow> (form_values \<Rightarrow> bool) \<Rightarrow>
   form_values \<Rightarrow> editor \<Rightarrow> editor" where
  "handleSubmit StringToNumber PROTOCOLS onSubmit values s =
     (if length (filtered StringToNumber PROTOCOLS (protocolsEnabled s) values) = 0
      then s\<lparr>toasts := toasts s @ [''validation_failed'']\<rparr>
      else
        (let result = result_of StringToNumber PROTOCOLS (protocolsEnabled s) values;
             ok = onSubmit result;
             s1 = s\<lparr>submitted := submitted s @ [result]\<rparr>
         in if ok then (form_reset None s1)\<lparr>sheet_open := False\<rparr> else s1))"

section \<open>What form-schema supplies\<close>

text \<open>
  \<^verbatim>\<open>handleSubmit\<close>, the effect and the handlers take the catalog \<^verbatim>\<open>PROTOCOLS\<close> and the
  factory \<^verbatim>\<open>getProtocolDefaultConfig\<close> as parameters, and the properties below hold for any
  catalog and any factory. The scenarios are run on the following two.
\<close>

text \<open>
  Modelled from the spec: the catalog \<^verbatim>\<open>protocols\<close> exported by \<^verbatim>\<open>./form-schema\<close>, which is
  not among the sources. The spec lists the seven kinds in this order.
\<close>

definition PROTOCOLS :: "string list" where
  "PROTOCOLS =
     [''shadowsocks'', ''vless'', ''vmess'', ''trojan'', ''tuic'', ''hysteria2'', ''anytls'']"

text \<open>
  Modelled from the spec: the factory \<^verbatim>\<open>getProtocolDefaultConfig\<close> exported by
  \<^verbatim>\<open>./form-schema\<close>, which is not among the sources. The spec documents these defaults:
  the cipher of shadowsocks, flow and security of vless, the security of trojan, the congestion
  controller of tuic, and the fingerprint \<^verbatim>\<open>chrome\<close>; it documents no default port.
\<close>

definition getProtocolDefaultConfig :: "string \<Rightarrow> jsobj" where
  "getProtocolDefaultConfig type =
     (if type = ''shadowsocks'' then
        [(''type'', JStr type), (''cipher'', JStr ''chacha20-ietf-poly1305'')]
      else if type = ''vless'' then
        [(''type'', JStr type), (''flow'', JStr ''none''), (''security'', JStr ''none''),
         (''fingerprint'', JStr ''chrome'')]
      else if type = ''trojan'' then
        [(''type'', JStr type), (''security'', JStr ''tls''), (''fingerprint'', JStr ''chrome'')]
      else if type = ''tuic'' then
        [(''type'', JStr type), (''congestion_controller'', JStr ''bbr'')]
      else [(''type'', JStr type)])"

text \<open>
  The ports and ratios of the scenarios are numbers, \<^verbatim>\<open>null\<close> or missing, never strings:
  no string is converted in them, and they run with a conversion that answers \<open>NaN\<close> for
  every string.
\<close>

definition no_strings :: "string \<Rightarrow> jsnum" where
  "no_strings s = NaN"

section \<open>Scenarios\<close>

text \<open>A node's values around a given array of protocol slots.\<close>

definition node_values :: "jsobj list \<Rightarrow> form_values" where
  "node_values ps =
     \<lparr> name = JStr ''hk-01'', address = JStr ''hk-01.example.net'', country = JStr ''HK'',
       city = JStr '''', ratio = JNum (Fin 1), protocols = Some ps \<rparr>"

text \<open>
  Seven slots in catalog order: shadowsocks on port 8388, and data left behind in the
  others (a usable port for vless, unusable ones from vmess to anytls).
\<close>

definition stale_slots :: "jsobj list" where
  "stale_slots =
     [ [(''type'', JStr ''shadowsocks''), (''port'', JNum (Fin 8388)),
        (''cipher'', JStr ''chacha20-ietf-poly1305'')],
       [(''type'', JStr ''vless''), (''port'', JNum (Fin 443)), (''transport'', JStr ''tcp''),
        (''host'', JStr ''old.example.net''), (''security'', JStr ''none''),
        (''reality_private_key'', JStr ''stale-key'')],
       [(''type'', JStr ''vmess''), (''port'', JNum (Fin 0))],
       [(''type'', JStr ''trojan''), (''port'', JNum NaN), (''security'', JStr ''tls'')],
       [(''type'', JStr ''tuic''), (''port'', JNull), (''congestion_controller'', JStr ''bbr'')],
       [(''type'', JStr ''hysteria2''), (''port'', JNum (Fin 70000))],
       [(''type'', JStr ''anytls'')] ]"

text \<open>The vless slot of \<open>stale_slots\<close>: transport tcp with a host, security none with a reality key.\<close>

definition vless_stale :: jsobj where
  "vless_stale =
     [(''type'', JStr ''vless''), (''port'', JNum (Fin 443)), (''transport'', JStr ''tcp''),
      (''host'', JStr ''old.example.net''), (''security'', JStr ''none''),
      (''reality_private_key'', JStr ''stale-key'')]"

text \<open>The values of a new node, as the trigger button resets the form to them.\<close>

definition fresh_values :: form_values where
  "fresh_values =
     \<lparr> name = JStr '''', address = JStr '''', country = JStr '''', city = JStr '''',
       ratio = JNum (Fin 1), protocols = Some (map getProtocolDefaultConfig PROTOCOLS) \<rparr>"

text \<open>
  An open editor of a new node after some editing: the given enabled list and form values,
  and nothing shown or submitted yet.
\<close>

definition editing :: "string list \<Rightarrow> form_values \<Rightarrow> editor" where
  "editing en v =
     \<lparr> sheet_open = True, protocolsEnabled = en, form_current = v,
       form_defaults = fresh_values, toasts = [], submitted = [] \<rparr>"

text \<open>Two slots out of line with the catalog: vless first, shadowsocks second.\<close>

definition misaligned_slots :: "jsobj list" where
  "misaligned_slots =
     [ [(''type'', JStr ''vless''), (''port'', JNum (Fin 443))],
       [(''type'', JStr ''shadowsocks''), (''port'', JNum (Fin 8388))] ]"

text \<open>
  A stored node with three protocols, one of them on the port 70000, handed to the form as
  \<^verbatim>\<open>initialValues\<close>.
\<close>

definition stored_shadowsocks :: jsobj where
  "stored_shadowsocks =
     [(''type'', JStr ''shadowsocks''), (''port'', JNum (Fin 8388)),
      (''cipher'', JStr ''aes-256-gcm'')]"

definition stored_trojan :: jsobj where
  "stored_trojan =
     [(''type'', JStr ''trojan''), (''port'', JNum (Fin 443)), (''security'', JStr ''tls''),
      (''sni'', JStr ''hk-01.example.net'')]"

definition stored_hysteria2 :: jsobj where
  "stored_hysteria2 =
     [(''type'', JStr ''hysteria2''), (''port'', JNum (Fin 70000)),
      (''hop_ports'', JStr ''20000-30000'')]"

definition stored_node :: partial_form_values where
  "stored_node =
     \<lparr> init_name = Some (JStr ''hk-01''), init_address = Some (JStr ''hk-01.example.net''),
       init_country = Some (JStr ''HK''), init_city = None, init_ratio = Some (JNum (Fin 2)),
       init_protocols = Some [stored_shadowsocks, stored_trojan, stored_hysteria2] \<rparr>"

text \<open>
  A stored node whose only protocol is a trojan config holding a type and a port, and no
  security mode.
\<close>

definition stored_trojan_partial :: jsobj where
  "stored_trojan_partial = [(''type'', JStr ''trojan''), (''port'', JNum (Fin 443))]"

definition partial_node :: partial_form_values where
  "partial_node =
     \<lparr> init_name = Some (JStr ''hk-02''), init_address = Some (JStr ''hk-02.example.net''),
       init_country = None, init_city = None, init_ratio = None,
       init_protocols = Some [stored_trojan_partial] \<rparr>"

lemmas stored_defs =
  stored_node_def stored_shadowsocks_def stored_trojan_def stored_hysteria2_def

lemmas scenario_defs =
  PROTOCOLS_def node_values_def stale_slots_def vless_stale_def misaligned_slots_def editing_def
  with_numeric_port_def spread_with_def get_prop_def

section \<open>Reading arrays by index\<close>

lemma at_index_None: "at_index xs i = None \<longleftrightarrow> length xs \<le> i"
  by (induction xs i rule: at_index.induct) auto

lemma at_index_Some: "at_index xs i = Some x \<longleftrightarrow> i < length xs \<and> xs ! i = x"
  by (induction xs i rule: at_index.induct) auto

lemma set_filter_from: "set (filter_from i f xs) \<subseteq> set xs"
  by (induction xs arbitrary: i) auto

lemma filter_from_enum:
  "filter_from i f xs = map fst (filter (\<lambda>(x, j). f x j) (zip xs [i..<i + length xs]))"
proof (induction xs arbitrary: i)
  case Nil
  then show ?case by simp
next
  case (Cons x xs)
  have "[i..<i + length (x # xs)] = i # [Suc i..<Suc i + length xs]"
    by (subst upt_rec) simp
  with Cons[of "Suc i"] show ?case by simp
qed

text \<open>The indexed filter keeps the elements at the positions that pass, in their order.\<close>

lemma filter_indexed_nths:
  "filter_indexed f xs = nths xs {j. j < length xs \<and> f (xs ! j) j}"
proof -
  have "filter (\<lambda>(x, j). f x j) (zip xs [0..<length xs]) =
        filter (\<lambda>p. snd p \<in> {j. j < length xs \<and> f (xs ! j) j}) (zip xs [0..<length xs])"
    by (rule filter_cong) (auto simp: in_set_zip)
  then show ?thesis
    by (simp add: filter_indexed_def filter_from_enum nths_def)
qed

lemma filter_from_map:
  assumes "\<And>x j. f (g x) j = f x j"
  shows "filter_from i f (map g xs) = map g (filter_from i f xs)"
  by (induction xs arbitrary: i) (simp_all add: assms)

lemma filter_from_update:
  "(\<And>x. \<not> f x (j + i)) \<Longrightarrow> filter_from j f (xs[i := q]) = filter_from j f xs"
proof (induction xs arbitrary: i j)
  case Nil
  then show ?case by simp
next
  case (Cons x xs)
  show ?case
  proof (cases i)
    case 0
    with Cons.prems[of x] Cons.prems[of q] show ?thesis by simp
  next
    case (Suc i')
    have "filter_from (Suc j) f (xs[i' := q]) = filter_from (Suc j) f xs"
      using Cons.prems by (intro Cons.IH) (simp add: Suc)
    with Suc show ?thesis by simp
  qed
qed

lemma filter_zip_map_self:
  "map fst (filter ok (zip (map g ks) ks)) =
     concat (map (\<lambda>k. if ok (g k, k) then [g k] else []) ks)"
  by (induction ks) auto

text \<open>Searching a list in which every key occurs once.\<close>

lemma find_type_cases:
  "(\<exists>p \<in> set ps. find (\<lambda>p. get_prop p ''type'' = t) ps = Some p \<and> get_prop p ''type'' = t)
   \<or> (find (\<lambda>p. get_prop p ''type'' = t) ps = None \<and> (\<forall>p \<in> set ps. get_prop p ''type'' \<noteq> t))"
  by (induction ps) auto

lemma find_distinct_key:
  "distinct (map f ps) \<Longrightarrow> find (\<lambda>p. f p = t) ps = Some p \<longleftrightarrow> p \<in> set ps \<and> f p = t"
  by (induction ps) auto

lemma filter_distinct_key:
  "distinct (map f ps) \<Longrightarrow>
   filter (\<lambda>p. f p = t) ps = (case find (\<lambda>p. f p = t) ps of None \<Rightarrow> [] | Some p \<Rightarrow> [p])"
proof (induction ps)
  case Nil
  then show ?case by simp
next
  case (Cons a ps)
  show ?case
  proof (cases "f a = t")
    case True
    with Cons.prems have "\<forall>p \<in> set ps. f p \<noteq> t" by (auto simp: image_iff)
    then have "filter (\<lambda>p. f p = t) ps = []" by (simp add: filter_empty_conv)
    with True show ?thesis by simp
  next
    case False
    with Cons show ?thesis by simp
  qed
qed

section \<open>Objects\<close>

lemma get_prop_spread_with:
  "get_prop (spread_with p k v) k' = (if k' = k then v else get_prop p k')"
  by (simp add: get_prop_def spread_with_def update_conv')

lemma keys_spread_with: "fst ` set (spread_with p k v) = insert k (fst ` set p)"
  by (simp add: spread_with_def dom_update)

text \<open>An entry whose port is a number already is not changed by the conversion.\<close>

lemma with_numeric_port_numeric:
  "get_prop p ''port'' = JNum n \<Longrightarrow> with_numeric_port S p = p"
proof -
  assume a: "get_prop p ''port'' = JNum n"
  then have "map_of p ''port'' = Some (JNum n)"
    by (auto simp: get_prop_def split: option.splits)
  then have "AList.update ''port'' (JNum n) p = p" by (rule update_triv)
  with a show ?thesis by (simp add: with_numeric_port_def spread_with_def)
qed

section \<open>The filter of \<^verbatim>\<open>handleSubmit\<close>\<close>

text \<open>The three tests on the port say: a finite number above 0 and at most 65535.\<close>

lemma range_test:
  "isFinite n \<and> js_lt (Fin 0) n \<and> js_le n (Fin 65535) \<longleftrightarrow>
   (\<exists>r. n = Fin r \<and> 0 < r \<and> r \<le> 65535)"
  by (cases n) auto

lemma keeps_iff:
  "keeps S cat en p j \<longleftrightarrow>
     j < length cat \<and> cat ! j \<noteq> [] \<and> cat ! j \<in> set en \<and>
     (\<exists>r. Number S (get_prop p ''port'') = Fin r \<and> 0 < r \<and> r \<le> 65535)"
proof (cases "at_index cat j")
  case None
  moreover from None have "length cat \<le> j" by (simp add: at_index_None)
  ultimately show ?thesis by (simp add: keeps_def Let_def)
next
  case (Some k)
  then have "j < length cat" "cat ! j = k" by (simp_all add: at_index_Some)
  with Some show ?thesis using range_test[of "Number S (get_prop p ''port'')"]
    by (simp add: keeps_def Let_def)
qed

text \<open>The test reads the port of the entry, and no other property of it.\<close>

lemma keeps_retyped: "keeps S cat en (spread_with p ''type'' v) j = keeps S cat en p j"
  by (simp add: keeps_def get_prop_spread_with)

lemma keeps_set: "set en = set other \<Longrightarrow> keeps S cat en = keeps S cat other"
  by (auto simp: keeps_def fun_eq_iff Let_def split: option.splits)

lemma keeps_disabled: "at_index cat i = Some k \<Longrightarrow> k \<notin> set en \<Longrightarrow> \<not> keeps S cat en p i"
  by (simp add: keeps_def)

lemma keeps_above_range:
  "get_prop p ''port'' = JNum (Fin r) \<Longrightarrow> 65535 < r \<Longrightarrow> \<not> keeps S cat en p i"
  by (simp add: keeps_def Let_def split: option.splits)

text \<open>
  The indexed filter pairs the entries with the catalog from the current index on, and
  stops with the shorter of the two.
\<close>

lemma filter_from_zip:
  "filter_from i (keeps S cat en) ps =
     map fst (filter (\<lambda>(p, k). k \<noteq> [] \<and> k \<in> set en \<and>
                isFinite (Number S (get_prop p ''port'')) \<and>
                js_lt (Fin 0) (Number S (get_prop p ''port'')) \<and>
                js_le (Number S (get_prop p ''port'')) (Fin 65535))
       (zip ps (drop i cat)))"
proof (induction ps arbitrary: i)
  case Nil
  then show ?case by simp
next
  case (Cons p ps)
  show ?case
  proof (cases "at_index cat i")
    case None
    then have "drop i cat = []" "drop (Suc i) cat = []" by (simp_all add: at_index_None)
    with None Cons[of "Suc i"] show ?thesis by (simp add: keeps_def)
  next
    case (Some k)
    then have "drop i cat = k # drop (Suc i) cat"
      using Cons_nth_drop_Suc[of i cat] by (auto simp: at_index_Some)
    with Some Cons[of "Suc i"] show ?thesis
      by (simp add: keeps_def Let_def)
  qed
qed

lemma filtered_zip:
  "filtered S cat en values =
     map (with_numeric_port S)
       (map fst (filter (\<lambda>(p, k). k \<noteq> [] \<and> k \<in> set en \<and>
                   isFinite (Number S (get_prop p ''port'')) \<and>
                   js_lt (Fin 0) (Number S (get_prop p ''port'')) \<and>
                   js_le (Number S (get_prop p ''port'')) (Fin 65535))
          (zip (case protocols values of None \<Rightarrow> [] | Some ps \<Rightarrow> ps) cat)))"
  using filter_from_zip[of 0 S cat en] by (simp add: filtered_def filter_indexed_def)

text \<open>The filter reads nothing but the protocols array.\<close>

lemma filtered_ratio: "filtered S cat en (values\<lparr>ratio := r\<rparr>) = filtered S cat en values"
  by (simp add: filtered_def)

lemma concat_map_if: "concat (map (\<lambda>x. if P x then [g x] else []) xs) = map g (filter P xs)"
  by (induction xs) auto

text \<open>The scenarios, evaluated.\<close>

lemma filtered_shadowsocks:
  "filtered no_strings PROTOCOLS [''shadowsocks''] (node_values stale_slots) =
     [ [(''type'', JStr ''shadowsocks''), (''port'', JNum (Fin 8388)),
        (''cipher'', JStr ''chacha20-ietf-poly1305'')] ]"
  by (simp add: filtered_zip scenario_defs)

lemma filtered_vless:
  "filtered no_strings PROTOCOLS [''vless''] (node_values stale_slots) = [vless_stale]"
  by (simp add: filtered_zip scenario_defs)

lemma filtered_none_enabled:
  "filtered no_strings PROTOCOLS [] (node_values stale_slots) = []"
  by (simp add: filtered_zip scenario_defs)

lemma filtered_unusable_ports:
  "filtered no_strings PROTOCOLS [''vmess'', ''hysteria2'', ''anytls'']
     (node_values stale_slots) = []"
  by (simp add: filtered_zip scenario_defs)

lemma filtered_misaligned:
  "filtered no_strings PROTOCOLS [''vless''] (node_values misaligned_slots) =
     [[(''type'', JStr ''shadowsocks''), (''port'', JNum (Fin 8388))]]"
  by (simp add: filtered_zip scenario_defs)

lemma filtered_both:
  "filtered no_strings PROTOCOLS [''shadowsocks'', ''vless''] (node_values stale_slots) =
     [ [(''type'', JStr ''shadowsocks''), (''port'', JNum (Fin 8388)),
        (''cipher'', JStr ''chacha20-ietf-poly1305'')], vless_stale ]"
  by (simp add: filtered_zip scenario_defs)

section \<open>The effect on \<^verbatim>\<open>initialValues\<close>\<close>

lemma enabledProtocols_iff:
  "k \<in> set (enabledProtocols S cat iv) \<longleftrightarrow>
     k \<in> set cat \<and>
     (\<exists>p. find_protocol iv k = Some p \<and> truthy (get_prop p ''port'') \<and>
          js_lt (Fin 0) (Number S (get_prop p ''port'')))"
  by (auto simp: enabledProtocols_def enabled_on_load_def split: option.splits)

lemma protocolsEnabled_useEffect:
  "protocolsEnabled (useEffect S cat dflt (Some iv) s) = enabledProtocols S cat iv"
  by (simp add: useEffect_def)

lemma form_current_useEffect:
  "form_current (useEffect S cat dflt (Some iv) s) = loaded_values cat dflt iv"
  by (simp add: useEffect_def)

lemma protocols_loaded_values:
  "protocols (loaded_values cat dflt iv) = Some (map (slot_for dflt iv) cat)"
  by (simp add: loaded_values_def)

text \<open>
  When the node holds each type at most once, the slot of a catalog kind passes the filter
  of \<^verbatim>\<open>handleSubmit\<close> exactly when the node has a config of that type whose port is truthy
  and in range, and that config is the slot.
\<close>

lemma slot_kept:
  assumes ps: "init_protocols iv = Some ps"
    and one: "distinct (map (\<lambda>p. get_prop p ''type'') ps)"
    and k: "k \<in> set cat"
  shows "(if k \<in> set (enabledProtocols S cat iv) \<and>
             isFinite (Number S (get_prop (slot_for dflt iv k) ''port'')) \<and>
             js_lt (Fin 0) (Number S (get_prop (slot_for dflt iv k) ''port'')) \<and>
             js_le (Number S (get_prop (slot_for dflt iv k) ''port'')) (Fin 65535)
          then [slot_for dflt iv k] else []) =
         filter (\<lambda>p. get_prop p ''type'' = JStr k \<and> truthy (get_prop p ''port'') \<and>
                  (\<exists>r. Number S (get_prop p ''port'') = Fin r \<and> 0 < r \<and> r \<le> 65535)) ps"
proof -
  let ?B = "\<lambda>p. truthy (get_prop p ''port'') \<and>
                  (\<exists>r. Number S (get_prop p ''port'') = Fin r \<and> 0 < r \<and> r \<le> 65535)"
  have split: "filter (\<lambda>p. get_prop p ''type'' = JStr k \<and> ?B p) ps =
               filter ?B (filter (\<lambda>p. get_prop p ''type'' = JStr k) ps)"
    by (simp add: conj_commute)
  show ?thesis
  proof (cases "find (\<lambda>p. get_prop p ''type'' = JStr k) ps")
    case None
    then have "find_protocol iv k = None" by (simp add: find_protocol_def ps)
    then have "k \<notin> set (enabledProtocols S cat iv)" by (simp add: enabledProtocols_iff)
    moreover from None have "filter (\<lambda>p. get_prop p ''type'' = JStr k) ps = []"
      using filter_distinct_key[OF one, of "JStr k"] by simp
    ultimately show ?thesis by (simp only: split) simp
  next
    case (Some p)
    then have f: "find_protocol iv k = Some p" by (simp add: find_protocol_def ps)
    then have slot: "slot_for dflt iv k = p" by (simp add: slot_for_def)
    from f k have en: "k \<in> set (enabledProtocols S cat iv) \<longleftrightarrow>
        truthy (get_prop p ''port'') \<and> js_lt (Fin 0) (Number S (get_prop p ''port''))"
      by (simp add: enabledProtocols_iff)
    from Some have one_p: "filter (\<lambda>p. get_prop p ''type'' = JStr k) ps = [p]"
      using filter_distinct_key[OF one, of "JStr k"] by simp
    show ?thesis
      using range_test[of "Number S (get_prop p ''port'')"]
      by (simp only: split one_p slot en) auto
  qed
qed

text \<open>The stored node, loaded.\<close>

lemma loaded_slots:
  "protocols (form_current (useEffect no_strings PROTOCOLS getProtocolDefaultConfig
      (Some stored_node) (mounted (Some stored_node)))) =
     Some [ stored_shadowsocks,
            getProtocolDefaultConfig ''vless'',
            getProtocolDefaultConfig ''vmess'',
            stored_trojan,
            getProtocolDefaultConfig ''tuic'',
            stored_hysteria2,
            getProtocolDefaultConfig ''anytls'' ]"
  by (simp add: useEffect_def loaded_values_def slot_for_def find_protocol_def PROTOCOLS_def
      stored_defs get_prop_def)

text \<open>The node with the partial trojan config, loaded.\<close>

lemma loaded_partial_slots:
  "protocols (form_current (useEffect no_strings PROTOCOLS getProtocolDefaultConfig
      (Some partial_node) (mounted (Some partial_node)))) =
     Some [ getProtocolDefaultConfig ''shadowsocks'',
            getProtocolDefaultConfig ''vless'',
            getProtocolDefaultConfig ''vmess'',
            stored_trojan_partial,
            getProtocolDefaultConfig ''tuic'',
            getProtocolDefaultConfig ''hysteria2'',
            getProtocolDefaultConfig ''anytls'' ]"
  by (simp add: useEffect_def loaded_values_def slot_for_def find_protocol_def PROTOCOLS_def
      partial_node_def stored_trojan_partial_def get_prop_def)

section \<open>What \<^verbatim>\<open>handleSubmit\<close> keeps\<close>

text \<open>
  C1, as amended. \<^verbatim>\<open>handleSubmit\<close> pairs the entries of the protocols array with the catalog
  kinds, position by position, and keeps exactly the entries whose kind is in the enabled
  list and whose port converts to a finite number above 0 and at most 65535, each with its
  port replaced by that number. The port is not tested for being an integer.
\<close>

theorem filtered_enabled_with_port_in_range:
  "filtered S cat en values =
     [with_numeric_port S p.
        (p, kind) \<leftarrow> zip (case protocols values of None \<Rightarrow> [] | Some ps \<Rightarrow> ps) cat,
        kind \<noteq> [] \<and> kind \<in> set en \<and>
        (\<exists>r. Number S (get_prop p ''port'') = Fin r \<and> 0 < r \<and> r \<le> 65535)]"
proof -
  let ?ps = "case protocols values of None \<Rightarrow> [] | Some ps \<Rightarrow> ps"
  let ?ok = "\<lambda>(p, k). k \<noteq> [] \<and> k \<in> set en \<and>
               (\<exists>r. Number S (get_prop p ''port'') = Fin r \<and> 0 < r \<and> r \<le> 65535)"
  have ok: "(k \<noteq> [] \<and> k \<in> set en \<and> isFinite n \<and> js_lt (Fin 0) n \<and> js_le n (Fin 65535)) =
            (k \<noteq> [] \<and> k \<in> set en \<and> (\<exists>r. n = Fin r \<and> 0 < r \<and> r \<le> 65535))" for k n
    using range_test[of n] by blast
  have "filtered S cat en values = map (\<lambda>x. with_numeric_port S (fst x)) (filter ?ok (zip ?ps cat))"
    unfolding filtered_zip ok map_map comp_def ..
  also have "\<dots> =
      concat (map (\<lambda>x. if ?ok x then [with_numeric_port S (fst x)] else []) (zip ?ps cat))"
    by (simp only: concat_map_if)
  finally show ?thesis by (simp add: case_prod_unfold cong: if_cong)
qed

text \<open>
  With only shadowsocks enabled, on port 8388, exactly that entry is kept, whatever the
  other slots still hold.
\<close>

theorem filtered_enabled_with_port_in_range_witness:
  "filtered no_strings PROTOCOLS [''shadowsocks''] (node_values stale_slots) =
     [ [(''type'', JStr ''shadowsocks''), (''port'', JNum (Fin 8388)),
        (''cipher'', JStr ''chacha20-ietf-poly1305'')] ]"
  by (simp add: filtered_enabled_with_port_in_range scenario_defs)

text \<open>An enabled shadowsocks slot with port 80.5 is kept, and 80.5 is no integer.\<close>

theorem kept_port_not_integer:
  "filtered no_strings PROTOCOLS [''shadowsocks'']
     (node_values [[(''type'', JStr ''shadowsocks''), (''port'', JNum (Fin 80.5))]]) =
     [[(''type'', JStr ''shadowsocks''), (''port'', JNum (Fin 80.5))]]
   \<and> (80.5 :: real) \<notin> \<int>"
proof -
  have "(80.5 :: real) \<notin> \<int>" by force
  then show ?thesis by (simp add: filtered_zip scenario_defs)
qed

section \<open>What a kept entry holds\<close>

text \<open>
  C2, as amended. Every entry of the submitted list is one of the form's entries with its
  port replaced by the number it converts to: every other property reads as it did, and
  the entry has the properties it had (and a port). No property is removed, whatever the
  entry's kind, transport or security.
\<close>

theorem kept_entry_only_port_changed:
  assumes "q \<in> set (filtered S cat en values)"
  shows "\<exists>p \<in> set (case protocols values of None \<Rightarrow> [] | Some ps \<Rightarrow> ps).
           q = with_numeric_port S p \<and>
           (\<forall>k. get_prop q k =
                  (if k = ''port'' then JNum (Number S (get_prop p ''port'')) else get_prop p k)) \<and>
           fst ` set q = insert ''port'' (fst ` set p)"
proof -
  from assms obtain p where
    p: "p \<in> set (filter_indexed (keeps S cat en)
                   (case protocols values of None \<Rightarrow> [] | Some ps \<Rightarrow> ps))"
    and q: "q = with_numeric_port S p"
    by (auto simp: filtered_def)
  from p have "p \<in> set (case protocols values of None \<Rightarrow> [] | Some ps \<Rightarrow> ps)"
    using set_filter_from by (fastforce simp: filter_indexed_def)
  moreover have "\<forall>k. get_prop q k =
      (if k = ''port'' then JNum (Number S (get_prop p ''port'')) else get_prop p k)"
    by (simp add: q with_numeric_port_def get_prop_spread_with)
  moreover have "fst ` set q = insert ''port'' (fst ` set p)"
    by (simp add: q with_numeric_port_def keys_spread_with)
  ultimately show ?thesis using q by blast
qed

text \<open>
  The vless entry submitted from \<open>stale_slots\<close> is one of the slots with a numeric port, with
  the host and the reality key of that slot.
\<close>

theorem kept_entry_only_port_changed_witness:
  "\<exists>p \<in> set stale_slots.
      vless_stale = with_numeric_port no_strings p \<and>
      get_prop vless_stale ''host'' = get_prop p ''host'' \<and>
      get_prop vless_stale ''reality_private_key'' = get_prop p ''reality_private_key'' \<and>
      fst ` set vless_stale = insert ''port'' (fst ` set p)"
proof -
  have "vless_stale \<in> set (filtered no_strings PROTOCOLS [''vless''] (node_values stale_slots))"
    by (simp add: filtered_vless)
  from kept_entry_only_port_changed[OF this] obtain p where
    p: "p \<in> set stale_slots" "vless_stale = with_numeric_port no_strings p"
    and same: "\<forall>k. get_prop vless_stale k =
      (if k = ''port'' then JNum (Number no_strings (get_prop p ''port'')) else get_prop p k)"
    and keys: "fst ` set vless_stale = insert ''port'' (fst ` set p)"
    by (auto simp: node_values_def)
  from same have "get_prop vless_stale ''host'' = get_prop p ''host''"
    "get_prop vless_stale ''reality_private_key'' = get_prop p ''reality_private_key''"
    by simp_all
  with p keys show ?thesis by blast
qed

text \<open>
  With vless enabled on port 443, transport tcp and security none, the submitted entry
  still carries the host and the reality key typed earlier.
\<close>

theorem stale_fields_submitted:
  "filtered no_strings PROTOCOLS [''vless''] (node_values stale_slots) =
     [ [(''type'', JStr ''vless''), (''port'', JNum (Fin 443)), (''transport'', JStr ''tcp''),
        (''host'', JStr ''old.example.net''), (''security'', JStr ''none''),
        (''reality_private_key'', JStr ''stale-key'')] ]"
  by (simp add: filtered_vless vless_stale_def)

section \<open>A submission with nothing to keep\<close>

text \<open>
  C3. When the kept list is empty, \<^verbatim>\<open>handleSubmit\<close> shows one error toast and does nothing
  else: \<^verbatim>\<open>onSubmit\<close> is not called, the form keeps its values and its default values, the
  enabled list is as it was and the sheet stays as it was.
\<close>

theorem empty_kept_list_rejected:
  assumes "filtered S cat (protocolsEnabled s) values = []"
  shows "handleSubmit S cat onSubmit values s = s\<lparr>toasts := toasts s @ [''validation_failed'']\<rparr>
       \<and> submitted (handleSubmit S cat onSubmit values s) = submitted s
       \<and> form_current (handleSubmit S cat onSubmit values s) = form_current s
       \<and> form_defaults (handleSubmit S cat onSubmit values s) = form_defaults s
       \<and> protocolsEnabled (handleSubmit S cat onSubmit values s) = protocolsEnabled s
       \<and> sheet_open (handleSubmit S cat onSubmit values s) = sheet_open s"
  using assms by (simp add: handleSubmit_def)

text \<open>Nothing enabled, and then three kinds enabled whose ports are 0, 70000 and missing.\<close>

theorem empty_kept_list_rejected_witness:
  "handleSubmit no_strings PROTOCOLS (\<lambda>result. True) (node_values stale_slots)
      (editing [] (node_values stale_slots)) =
     (editing [] (node_values stale_slots))\<lparr>toasts := [''validation_failed'']\<rparr>
   \<and> handleSubmit no_strings PROTOCOLS (\<lambda>result. True) (node_values stale_slots)
      (editing [''vmess'', ''hysteria2'', ''anytls''] (node_values stale_slots)) =
     (editing [''vmess'', ''hysteria2'', ''anytls''] (node_values stale_slots))
       \<lparr>toasts := [''validation_failed'']\<rparr>"
proof -
  let ?v = "node_values stale_slots"
  have a: "filtered no_strings PROTOCOLS (protocolsEnabled (editing [] ?v)) ?v = []"
    by (simp add: editing_def filtered_none_enabled)
  have b: "filtered no_strings PROTOCOLS
          (protocolsEnabled (editing [''vmess'', ''hysteria2'', ''anytls''] ?v)) ?v = []"
    by (simp add: editing_def filtered_unusable_ports)
  have t: "toasts (editing en ?v) = []" for en by (simp add: editing_def)
  show ?thesis
    using empty_kept_list_rejected[OF a, of "\<lambda>result. True"]
      empty_kept_list_rejected[OF b, of "\<lambda>result. True"]
    by (simp add: t)
qed

section \<open>A submission that is committed\<close>

text \<open>
  C9. When the kept list is not empty, \<^verbatim>\<open>onSubmit\<close> is called once, with the result. If it
  reports success, the form is reset to its default values and the sheet is closed. If it
  reports failure, nothing else happens: the form values, the enabled list and the sheet
  flag are as they were.
\<close>

theorem commit_success_resets_failure_keeps:
  assumes "filtered S cat (protocolsEnabled s) values \<noteq> []"
  shows "submitted (handleSubmit S cat onSubmit values s) =
           submitted s @ [result_of S cat (protocolsEnabled s) values]
       \<and> toasts (handleSubmit S cat onSubmit values s) = toasts s
       \<and> protocolsEnabled (handleSubmit S cat onSubmit values s) = protocolsEnabled s
       \<and> form_defaults (handleSubmit S cat onSubmit values s) = form_defaults s
       \<and> (onSubmit (result_of S cat (protocolsEnabled s) values) \<longrightarrow>
            form_current (handleSubmit S cat onSubmit values s) = form_defaults s \<and>
            sheet_open (handleSubmit S cat onSubmit values s) = False)
       \<and> (\<not> onSubmit (result_of S cat (protocolsEnabled s) values) \<longrightarrow>
            form_current (handleSubmit S cat onSubmit values s) = form_current s \<and>
            sheet_open (handleSubmit S cat onSubmit values s) = sheet_open s \<and>
            handleSubmit S cat onSubmit values s =
              s\<lparr>submitted := submitted s @ [result_of S cat (protocolsEnabled s) values]\<rparr>)"
  using assms by (simp add: handleSubmit_def Let_def)

text \<open>The same submission, committed with success and then with failure.\<close>

theorem commit_success_resets_failure_keeps_witness:
  "handleSubmit no_strings PROTOCOLS (\<lambda>result. True) (node_values stale_slots)
       (editing [''shadowsocks''] (node_values stale_slots)) =
     \<lparr> sheet_open = False, protocolsEnabled = [''shadowsocks''], form_current = fresh_values,
       form_defaults = fresh_values, toasts = [],
       submitted = [result_of no_strings PROTOCOLS [''shadowsocks''] (node_values stale_slots)] \<rparr>
   \<and> handleSubmit no_strings PROTOCOLS (\<lambda>result. False) (node_values stale_slots)
       (editing [''shadowsocks''] (node_values stale_slots)) =
     \<lparr> sheet_open = True, protocolsEnabled = [''shadowsocks''],
       form_current = node_values stale_slots,
       form_defaults = fresh_values, toasts = [],
       submitted = [result_of no_strings PROTOCOLS [''shadowsocks''] (node_values stale_slots)] \<rparr>"
proof -
  let ?v = "node_values stale_slots"
  let ?s = "editing [''shadowsocks''] ?v"
  have ne: "filtered no_strings PROTOCOLS (protocolsEnabled ?s) ?v \<noteq> []"
    by (simp add: editing_def filtered_shadowsocks)
  have "handleSubmit no_strings PROTOCOLS (\<lambda>result. True) ?v ?s =
      \<lparr> sheet_open = False, protocolsEnabled = [''shadowsocks''], form_current = fresh_values,
       form_defaults = fresh_values, toasts = [],
       submitted = [result_of no_strings PROTOCOLS [''shadowsocks''] ?v] \<rparr>"
    using commit_success_resets_failure_keeps[OF ne, of "\<lambda>result. True"]
    by (cases "handleSubmit no_strings PROTOCOLS (\<lambda>result. True) ?v ?s") (simp add: editing_def)
  moreover have "handleSubmit no_strings PROTOCOLS (\<lambda>result. False) ?v ?s =
      \<lparr> sheet_open = True, protocolsEnabled = [''shadowsocks''], form_current = ?v,
       form_defaults = fresh_values, toasts = [],
       submitted = [result_of no_strings PROTOCOLS [''shadowsocks''] ?v] \<rparr>"
    using commit_success_resets_failure_keeps[OF ne, of "\<lambda>result. False"]
    by (simp add: editing_def)
  ultimately show ?thesis by simp
qed

section \<open>The submitted ratio\<close>

text \<open>
  C5. The ratio input accepts 0 (its \<^verbatim>\<open>min\<close> is 0), and \<^verbatim>\<open>Number(values.ratio || 1)\<close>
  takes 0 for a missing value: with shadowsocks enabled on port 8388 and the ratio 0, the
  values handed to \<^verbatim>\<open>onSubmit\<close> carry the ratio 1.
\<close>

theorem ratio_zero_submitted_as_one:
  "submitted (handleSubmit no_strings PROTOCOLS (\<lambda>result. True)
       ((node_values stale_slots)\<lparr>ratio := JNum (Fin 0)\<rparr>)
       (editing [''shadowsocks''] ((node_values stale_slots)\<lparr>ratio := JNum (Fin 0)\<rparr>))) =
     [ \<lparr> name = JStr ''hk-01'', address = JStr ''hk-01.example.net'', country = JStr ''HK'',
         city = JStr '''', ratio = JNum (Fin 1),
         protocols = Some [ [(''type'', JStr ''shadowsocks''), (''port'', JNum (Fin 8388)),
                             (''cipher'', JStr ''chacha20-ietf-poly1305'')] ] \<rparr> ]"
proof -
  let ?v = "(node_values stale_slots)\<lparr>ratio := JNum (Fin 0)\<rparr>"
  have f: "filtered no_strings PROTOCOLS [''shadowsocks''] ?v =
        [ [(''type'', JStr ''shadowsocks''), (''port'', JNum (Fin 8388)),
           (''cipher'', JStr ''chacha20-ietf-poly1305'')] ]"
    by (simp only: filtered_ratio filtered_shadowsocks)
  have r: "result_of no_strings PROTOCOLS [''shadowsocks''] ?v =
      \<lparr> name = JStr ''hk-01'', address = JStr ''hk-01.example.net'', country = JStr ''HK'',
         city = JStr '''', ratio = JNum (Fin 1),
         protocols = Some [ [(''type'', JStr ''shadowsocks''), (''port'', JNum (Fin 8388)),
                             (''cipher'', JStr ''chacha20-ietf-poly1305'')] ] \<rparr>"
    unfolding result_of_def f by (simp add: submitted_ratio_def node_values_def)
  have "submitted (handleSubmit no_strings PROTOCOLS (\<lambda>result. True) ?v
          (editing [''shadowsocks''] ?v)) = [result_of no_strings PROTOCOLS [''shadowsocks''] ?v]"
    unfolding handleSubmit_def editing_def by (simp add: f Let_def del: One_nat_def)
  with r show ?thesis by simp
qed

section \<open>Position, not type\<close>

text \<open>
  C6. \<^verbatim>\<open>handleSubmit\<close> judges the entry at position \<open>j\<close> of the protocols array by the catalog
  kind at position \<open>j\<close> and by the entry's port: the kept list is made of the entries at the
  passing positions, in the order of the array, which is the order of the catalog. The
  entry's own \<^verbatim>\<open>type\<close> plays no part (writing any other types into the entries keeps the
  same positions), and neither does the order in which the kinds were enabled.
\<close>

theorem kept_by_position:
  "filtered S cat en (vals\<lparr>protocols := Some ps\<rparr>) =
     map (with_numeric_port S)
       (nths ps {j. j < length ps \<and> j < length cat \<and> cat ! j \<noteq> [] \<and> cat ! j \<in> set en \<and>
                   (\<exists>r. Number S (get_prop (ps ! j) ''port'') = Fin r \<and> 0 < r \<and> r \<le> 65535)})
   \<and> filter_indexed (keeps S cat en) (map (\<lambda>p. spread_with p ''type'' (t p)) ps) =
       map (\<lambda>p. spread_with p ''type'' (t p)) (filter_indexed (keeps S cat en) ps)
   \<and> (set en = set other \<longrightarrow> filtered S cat en vals = filtered S cat other vals)"
proof -
  have "filtered S cat en (vals\<lparr>protocols := Some ps\<rparr>) =
     map (with_numeric_port S)
       (nths ps {j. j < length ps \<and> j < length cat \<and> cat ! j \<noteq> [] \<and> cat ! j \<in> set en \<and>
                   (\<exists>r. Number S (get_prop (ps ! j) ''port'') = Fin r \<and> 0 < r \<and> r \<le> 65535)})"
    by (simp add: filtered_def filter_indexed_nths keeps_iff)
  moreover have "filter_indexed (keeps S cat en) (map (\<lambda>p. spread_with p ''type'' (t p)) ps) =
       map (\<lambda>p. spread_with p ''type'' (t p)) (filter_indexed (keeps S cat en) ps)"
    by (simp add: filter_indexed_def filter_from_map keeps_retyped)
  moreover have "set en = set other \<longrightarrow> filtered S cat en vals = filtered S cat other vals"
    using keeps_set[of en other S cat] by (auto simp: filtered_def)
  ultimately show ?thesis by blast
qed

text \<open>
  With only vless enabled and the two slots out of line, the entry typed vless (first, so
  judged as shadowsocks) is dropped and the entry typed shadowsocks (second, so judged as
  vless) is kept. Enabling vless before or after shadowsocks gives the same list.
\<close>

theorem kept_by_position_witness:
  "filtered no_strings PROTOCOLS [''vless''] (node_values misaligned_slots) =
     [[(''type'', JStr ''shadowsocks''), (''port'', JNum (Fin 8388))]]
   \<and> filtered no_strings PROTOCOLS [''vless'', ''shadowsocks''] (node_values stale_slots) =
     filtered no_strings PROTOCOLS [''shadowsocks'', ''vless''] (node_values stale_slots)
   \<and> filtered no_strings PROTOCOLS [''shadowsocks'', ''vless''] (node_values stale_slots) =
     [ [(''type'', JStr ''shadowsocks''), (''port'', JNum (Fin 8388)),
        (''cipher'', JStr ''chacha20-ietf-poly1305'')], vless_stale ]"
proof -
  have s: "set [''vless'', ''shadowsocks''] = set [''shadowsocks'', ''vless'']" by auto
  have "filtered no_strings PROTOCOLS [''vless'', ''shadowsocks''] (node_values stale_slots) =
     filtered no_strings PROTOCOLS [''shadowsocks'', ''vless''] (node_values stale_slots)"
    using kept_by_position[where S = no_strings and cat = PROTOCOLS
        and en = "[''vless'', ''shadowsocks'']" and other = "[''shadowsocks'', ''vless'']"
        and vals = "node_values stale_slots"] s
    by blast
  then show ?thesis using filtered_misaligned filtered_both by simp
qed

section \<open>The enabled switch\<close>

text \<open>
  C7. Switching a kind on or off changes the membership of that kind in the enabled list and
  of no other kind, and leaves the form's values alone: off and on again, the form holds
  what it held and the kind is enabled. While the kind is off, its slot is not kept, and
  the kept list is the same whatever that slot holds.
\<close>

theorem toggle_changes_membership_only:
  "form_current (onCheckedChange k c s) = form_current s
   \<and> form_defaults (onCheckedChange k c s) = form_defaults s
   \<and> set (protocolsEnabled (onCheckedChange k c s)) =
       (if c then insert k (set (protocolsEnabled s)) else set (protocolsEnabled s) - {k})
   \<and> form_current (onCheckedChange k True (onCheckedChange k False s)) = form_current s
   \<and> set (protocolsEnabled (onCheckedChange k True (onCheckedChange k False s))) =
       insert k (set (protocolsEnabled s))
   \<and> (at_index cat i = Some k \<longrightarrow>
        \<not> keeps S cat (protocolsEnabled (onCheckedChange k False s)) p i \<and>
        filtered S cat (protocolsEnabled (onCheckedChange k False s))
            (vals\<lparr>protocols := Some (ps[i := p])\<rparr>) =
          filtered S cat (protocolsEnabled (onCheckedChange k False s))
            (vals\<lparr>protocols := Some ps\<rparr>))"
proof -
  let ?off = "protocolsEnabled (onCheckedChange k False s)"
  have off: "k \<notin> set ?off" by (simp add: onCheckedChange_def)
  have "filtered S cat ?off (vals\<lparr>protocols := Some (ps[i := p])\<rparr>) =
          filtered S cat ?off (vals\<lparr>protocols := Some ps\<rparr>)"
    if "at_index cat i = Some k"
    using filter_from_update[of "keeps S cat ?off" 0 i ps p] keeps_disabled[OF that off]
    by (simp add: filtered_def filter_indexed_def)
  then show ?thesis
    using keeps_disabled[OF _ off] by (auto simp: onCheckedChange_def)
qed

text \<open>
  Shadowsocks and vless enabled, vless switched off: only shadowsocks is submitted. Vless
  switched on again: the form is as it was and vless is submitted with what it held.
\<close>

theorem toggle_changes_membership_only_witness:
  "protocolsEnabled (onCheckedChange ''vless'' False
       (editing [''shadowsocks'', ''vless''] (node_values stale_slots))) = [''shadowsocks'']
   \<and> form_current (onCheckedChange ''vless'' True (onCheckedChange ''vless'' False
       (editing [''shadowsocks'', ''vless''] (node_values stale_slots)))) = node_values stale_slots
   \<and> filtered no_strings PROTOCOLS
       (protocolsEnabled (onCheckedChange ''vless'' False
          (editing [''shadowsocks'', ''vless''] (node_values stale_slots))))
       (node_values stale_slots) =
     [ [(''type'', JStr ''shadowsocks''), (''port'', JNum (Fin 8388)),
        (''cipher'', JStr ''chacha20-ietf-poly1305'')] ]
   \<and> filtered no_strings PROTOCOLS
       (protocolsEnabled (onCheckedChange ''vless'' True (onCheckedChange ''vless'' False
          (editing [''shadowsocks'', ''vless''] (node_values stale_slots)))))
       (node_values stale_slots) =
     [ [(''type'', JStr ''shadowsocks''), (''port'', JNum (Fin 8388)),
        (''cipher'', JStr ''chacha20-ietf-poly1305'')], vless_stale ]"
proof -
  let ?s = "editing [''shadowsocks'', ''vless''] (node_values stale_slots)"
  have i: "at_index PROTOCOLS 1 = Some ''vless''" by (simp add: PROTOCOLS_def)
  have c: "form_current ?s = node_values stale_slots" by (simp add: editing_def)
  have off: "protocolsEnabled (onCheckedChange ''vless'' False ?s) = [''shadowsocks'']"
    by (simp add: onCheckedChange_def editing_def)
  have on: "protocolsEnabled (onCheckedChange ''vless'' True (onCheckedChange ''vless'' False ?s)) =
      [''shadowsocks'', ''vless'']"
    by (simp add: onCheckedChange_def editing_def)
  show ?thesis
    using toggle_changes_membership_only[where k = "''vless''" and c = False and s = ?s
        and cat = PROTOCOLS and i = 1 and S = no_strings] i
    by (simp add: c off on filtered_both filtered_shadowsocks)
qed

section \<open>The slots the editor starts from\<close>

text \<open>
  C8, as amended. For a new node the trigger button fills the protocols array with the
  default config of each catalog kind, in catalog order, and enables nothing. For an
  existing node the effect fills it with one slot per catalog kind, in catalog order: the
  slot of a kind is the node's (first) config of that type, exactly as the node holds it,
  when the node has one, and the default config of the kind when it has none. The factory
  is asked for whole configs only: a property that a stored config lacks is not filled in,
  so a slot is as populated as the stored config or the default it holds.
\<close>

theorem one_slot_per_kind_after_init:
  "protocols (form_current (onClick cat dflt None s)) = Some (map dflt cat)
   \<and> protocolsEnabled (onClick cat dflt None s) = []
   \<and> (\<exists>slots. protocols (form_current (useEffect S cat dflt (Some iv) s)) = Some slots
         \<and> length slots = length cat
         \<and> (\<forall>i < length cat.
               (\<exists>p \<in> set (case init_protocols iv of None \<Rightarrow> [] | Some ps \<Rightarrow> ps).
                   find_protocol iv (cat ! i) = Some p \<and>
                   get_prop p ''type'' = JStr (cat ! i) \<and> slots ! i = p)
               \<or> ((\<forall>p \<in> set (case init_protocols iv of None \<Rightarrow> [] | Some ps \<Rightarrow> ps).
                      get_prop p ''type'' \<noteq> JStr (cat ! i))
                  \<and> slots ! i = dflt (cat ! i))))"
proof -
  let ?ps = "case init_protocols iv of None \<Rightarrow> [] | Some ps \<Rightarrow> ps"
  let ?slots = "map (slot_for dflt iv) cat"
  have new: "protocols (form_current (onClick cat dflt None s)) = Some (map dflt cat)"
    "protocolsEnabled (onClick cat dflt None s) = []"
    by (simp_all add: onClick_def Let_def)
  have loaded: "protocols (form_current (useEffect S cat dflt (Some iv) s)) = Some ?slots"
    by (simp add: useEffect_def loaded_values_def)
  have slot: "(\<exists>p \<in> set ?ps. find_protocol iv k = Some p \<and>
                 get_prop p ''type'' = JStr k \<and> slot_for dflt iv k = p)
        \<or> ((\<forall>p \<in> set ?ps. get_prop p ''type'' \<noteq> JStr k) \<and> slot_for dflt iv k = dflt k)" for k
  proof (cases "init_protocols iv")
    case None
    then show ?thesis by (simp add: slot_for_def find_protocol_def)
  next
    case (Some ps)
    with find_type_cases[of ps "JStr k"] show ?thesis
      by (auto simp: slot_for_def find_protocol_def)
  qed
  have "\<forall>i < length cat.
      (\<exists>p \<in> set ?ps. find_protocol iv (cat ! i) = Some p \<and>
          get_prop p ''type'' = JStr (cat ! i) \<and> ?slots ! i = p)
      \<or> ((\<forall>p \<in> set ?ps. get_prop p ''type'' \<noteq> JStr (cat ! i)) \<and> ?slots ! i = dflt (cat ! i))"
    using slot by simp
  with new loaded show ?thesis by simp
qed

text \<open>
  A new node gets the seven defaults. The stored node keeps its shadowsocks, trojan and
  hysteria2 configs in their catalog places, the four other slots are defaults.
\<close>

theorem one_slot_per_kind_after_init_witness:
  "protocols (form_current (onClick PROTOCOLS getProtocolDefaultConfig None (mounted None))) =
     Some (map getProtocolDefaultConfig PROTOCOLS)
   \<and> protocols (form_current (useEffect no_strings PROTOCOLS getProtocolDefaultConfig
        (Some stored_node) (mounted (Some stored_node)))) =
     Some [ stored_shadowsocks,
            getProtocolDefaultConfig ''vless'',
            getProtocolDefaultConfig ''vmess'',
            stored_trojan,
            getProtocolDefaultConfig ''tuic'',
            stored_hysteria2,
            getProtocolDefaultConfig ''anytls'' ]"
  using one_slot_per_kind_after_init[of PROTOCOLS getProtocolDefaultConfig "mounted None"]
    loaded_slots by simp

text \<open>
  The stored trojan config without a security mode goes into the trojan slot as it is: the
  slot has no security mode, though the default config of trojan has one.
\<close>

theorem stored_config_not_backfilled:
  "protocols (form_current (useEffect no_strings PROTOCOLS getProtocolDefaultConfig
      (Some partial_node) (mounted (Some partial_node)))) =
     Some [ getProtocolDefaultConfig ''shadowsocks'',
            getProtocolDefaultConfig ''vless'',
            getProtocolDefaultConfig ''vmess'',
            [(''type'', JStr ''trojan''), (''port'', JNum (Fin 443))],
            getProtocolDefaultConfig ''tuic'',
            getProtocolDefaultConfig ''hysteria2'',
            getProtocolDefaultConfig ''anytls'' ]
   \<and> get_prop [(''type'', JStr ''trojan''), (''port'', JNum (Fin 443))] ''security'' = JUndefined
   \<and> get_prop (getProtocolDefaultConfig ''trojan'') ''security'' = JStr ''tls''"
  by (simp add: loaded_partial_slots stored_trojan_partial_def getProtocolDefaultConfig_def
      get_prop_def)

section \<open>The kinds enabled on load\<close>

text \<open>
  C10. On load a catalog kind is enabled exactly when the node's (first) config of that type
  has a truthy port that converts to a number above 0; when the node holds each type at
  most once, that is: when the node contains a config of that type with such a port. There
  is no upper bound: a config with a stored port above 65535 has its kind enabled, and
  \<^verbatim>\<open>handleSubmit\<close> does not keep it, at any position and whatever is enabled.
\<close>

theorem enabled_on_load_without_upper_bound:
  "(k \<in> set (protocolsEnabled (useEffect S cat dflt (Some iv) s)) \<longleftrightarrow>
      k \<in> set cat \<and>
      (\<exists>p. find_protocol iv k = Some p \<and> truthy (get_prop p ''port'') \<and>
           js_lt (Fin 0) (Number S (get_prop p ''port''))))
   \<and> (init_protocols iv = Some ps \<and> distinct (map (\<lambda>p. get_prop p ''type'') ps) \<longrightarrow>
        (k \<in> set (protocolsEnabled (useEffect S cat dflt (Some iv) s)) \<longleftrightarrow>
           k \<in> set cat \<and>
           (\<exists>p \<in> set ps. get_prop p ''type'' = JStr k \<and> truthy (get_prop p ''port'') \<and>
                js_lt (Fin 0) (Number S (get_prop p ''port'')))))
   \<and> (k \<in> set cat \<and> find_protocol iv k = Some q \<and> get_prop q ''port'' = JNum (Fin r) \<and>
       65535 < r \<longrightarrow>
        k \<in> set (protocolsEnabled (useEffect S cat dflt (Some iv) s)) \<and>
        \<not> keeps S cat en q i)"
proof -
  have first: "k \<in> set (protocolsEnabled (useEffect S cat dflt (Some iv) s)) \<longleftrightarrow>
      k \<in> set cat \<and>
      (\<exists>p. find_protocol iv k = Some p \<and> truthy (get_prop p ''port'') \<and>
           js_lt (Fin 0) (Number S (get_prop p ''port'')))"
    by (simp only: protocolsEnabled_useEffect enabledProtocols_iff)
  have second: "k \<in> set (protocolsEnabled (useEffect S cat dflt (Some iv) s)) \<longleftrightarrow>
           k \<in> set cat \<and>
           (\<exists>p \<in> set ps. get_prop p ''type'' = JStr k \<and> truthy (get_prop p ''port'') \<and>
                js_lt (Fin 0) (Number S (get_prop p ''port'')))"
    if "init_protocols iv = Some ps" "distinct (map (\<lambda>p. get_prop p ''type'') ps)"
    using that find_distinct_key[of "\<lambda>p. get_prop p ''type''" ps "JStr k"]
    by (auto simp: first find_protocol_def)
  have third: "k \<in> set (protocolsEnabled (useEffect S cat dflt (Some iv) s)) \<and>
        \<not> keeps S cat en q i"
    if "k \<in> set cat" "find_protocol iv k = Some q" "get_prop q ''port'' = JNum (Fin r)" "65535 < r"
    using that keeps_above_range[of q r S cat en i] by (simp add: first)
  from first second third show ?thesis by blast
qed

text \<open>
  The stored hysteria2 config, on port 70000, is enabled on load and fails the test of
  \<^verbatim>\<open>handleSubmit\<close> at its position; vless, which the node does not hold, is not enabled.
\<close>

theorem enabled_on_load_without_upper_bound_witness:
  "''hysteria2'' \<in> set (protocolsEnabled (useEffect no_strings PROTOCOLS getProtocolDefaultConfig
      (Some stored_node) (mounted (Some stored_node))))
   \<and> get_prop stored_hysteria2 ''port'' = JNum (Fin 70000)
   \<and> \<not> keeps no_strings PROTOCOLS [''shadowsocks'', ''trojan'', ''hysteria2''] stored_hysteria2 5
   \<and> ''vless'' \<notin> set (protocolsEnabled (useEffect no_strings PROTOCOLS getProtocolDefaultConfig
      (Some stored_node) (mounted (Some stored_node))))"
proof -
  have k: "''hysteria2'' \<in> set PROTOCOLS" by (simp add: PROTOCOLS_def)
  have f: "find_protocol stored_node ''hysteria2'' = Some stored_hysteria2"
    by (simp add: find_protocol_def stored_defs get_prop_def)
  have p: "get_prop stored_hysteria2 ''port'' = JNum (Fin 70000)"
    by (simp add: stored_defs get_prop_def)
  have v: "find_protocol stored_node ''vless'' = None"
    by (simp add: find_protocol_def stored_defs get_prop_def)
  have "''hysteria2'' \<in> set (protocolsEnabled (useEffect no_strings PROTOCOLS
          getProtocolDefaultConfig (Some stored_node) (mounted (Some stored_node))))
        \<and> \<not> keeps no_strings PROTOCOLS [''shadowsocks'', ''trojan'', ''hysteria2'']
              stored_hysteria2 5"
    using enabled_on_load_without_upper_bound[where k = "''hysteria2''" and cat = PROTOCOLS
        and iv = stored_node and q = stored_hysteria2 and r = 70000] k f p
    by simp
  moreover have "''vless'' \<notin> set (protocolsEnabled (useEffect no_strings PROTOCOLS
          getProtocolDefaultConfig (Some stored_node) (mounted (Some stored_node))))"
    using enabled_on_load_without_upper_bound[where k = "''vless''" and iv = stored_node] v
    by simp
  ultimately show ?thesis using p by simp
qed

section \<open>Loading and submitting without an edit\<close>

text \<open>
  C4. Take a stored node that holds each type at most once, load it, and submit the form as
  loaded. The kept list is, kind by kind in catalog order, the node's config of that kind
  when its port is truthy and converts to a finite number above 0 and at most 65535, with
  the port as that number: nothing else is in the list and no such config is left out. When
  the stored ports are numbers, the kept configs are the stored ones unchanged. When the
  list is not empty, it is the protocols list handed to \<^verbatim>\<open>onSubmit\<close>.
\<close>

theorem load_then_submit_round_trip:
  assumes ps: "init_protocols iv = Some ps"
    and one: "distinct (map (\<lambda>p. get_prop p ''type'') ps)"
    and named: "[] \<notin> set cat"
  shows "filtered S cat (protocolsEnabled (useEffect S cat dflt (Some iv) s))
             (form_current (useEffect S cat dflt (Some iv) s)) =
           [with_numeric_port S p. kind \<leftarrow> cat, p \<leftarrow> ps,
              get_prop p ''type'' = JStr kind \<and> truthy (get_prop p ''port'') \<and>
              (\<exists>r. Number S (get_prop p ''port'') = Fin r \<and> 0 < r \<and> r \<le> 65535)]
       \<and> ((\<forall>p \<in> set ps. \<exists>n. get_prop p ''port'' = JNum n) \<longrightarrow>
            filtered S cat (protocolsEnabled (useEffect S cat dflt (Some iv) s))
               (form_current (useEffect S cat dflt (Some iv) s)) =
             [p. kind \<leftarrow> cat, p \<leftarrow> ps,
                get_prop p ''type'' = JStr kind \<and> truthy (get_prop p ''port'') \<and>
                (\<exists>r. Number S (get_prop p ''port'') = Fin r \<and> 0 < r \<and> r \<le> 65535)])
       \<and> (filtered S cat (protocolsEnabled (useEffect S cat dflt (Some iv) s))
             (form_current (useEffect S cat dflt (Some iv) s)) \<noteq> [] \<longrightarrow>
            map protocols (submitted (handleSubmit S cat onSubmit
                (form_current (useEffect S cat dflt (Some iv) s))
                (useEffect S cat dflt (Some iv) s))) =
              map protocols (submitted s) @
              [Some (filtered S cat (protocolsEnabled (useEffect S cat dflt (Some iv) s))
                      (form_current (useEffect S cat dflt (Some iv) s)))])"
proof -
  let ?s = "useEffect S cat dflt (Some iv) s"
  let ?C = "\<lambda>kind p. get_prop p ''type'' = JStr kind \<and> truthy (get_prop p ''port'') \<and>
              (\<exists>r. Number S (get_prop p ''port'') = Fin r \<and> 0 < r \<and> r \<le> 65535)"
  let ?ok = "\<lambda>(p, k). k \<noteq> [] \<and> k \<in> set (enabledProtocols S cat iv) \<and>
                   isFinite (Number S (get_prop p ''port'')) \<and>
                   js_lt (Fin 0) (Number S (get_prop p ''port'')) \<and>
                   js_le (Number S (get_prop p ''port'')) (Fin 65535)"
  have kept: "filter_indexed (keeps S cat (protocolsEnabled ?s))
                 (case protocols (form_current ?s) of None \<Rightarrow> [] | Some ps \<Rightarrow> ps) =
              concat (map (\<lambda>kind. filter (?C kind) ps) cat)"
  proof -
    have "filter_indexed (keeps S cat (protocolsEnabled ?s))
            (case protocols (form_current ?s) of None \<Rightarrow> [] | Some ps \<Rightarrow> ps) =
          map fst (filter ?ok (zip (map (slot_for dflt iv) cat) cat))"
      using filter_from_zip[of 0 S cat "enabledProtocols S cat iv" "map (slot_for dflt iv) cat"]
      by (simp add: filter_indexed_def protocolsEnabled_useEffect form_current_useEffect
          protocols_loaded_values)
    also have "\<dots> = concat (map (\<lambda>k. if ?ok (slot_for dflt iv k, k)
                                        then [slot_for dflt iv k] else []) cat)"
      by (rule filter_zip_map_self)
    also have "\<dots> = concat (map (\<lambda>kind. filter (?C kind) ps) cat)"
    proof -
      have "(if ?ok (slot_for dflt iv k, k) then [slot_for dflt iv k] else []) =
            filter (?C k) ps" if "k \<in> set cat" for k
      proof -
        from that named have "k \<noteq> []" by auto
        with slot_kept[OF ps one that, of S dflt] show ?thesis by simp
      qed
      then show ?thesis by (simp cong: map_cong)
    qed
    finally show ?thesis .
  qed
  have first: "filtered S cat (protocolsEnabled ?s) (form_current ?s) =
      [with_numeric_port S p. kind \<leftarrow> cat, p \<leftarrow> ps, ?C kind p]"
  proof -
    have "[with_numeric_port S p. kind \<leftarrow> cat, p \<leftarrow> ps, ?C kind p] =
          concat (map (\<lambda>kind. map (with_numeric_port S) (filter (?C kind) ps)) cat)"
      by (simp only: concat_map_if)
    also have "\<dots> = map (with_numeric_port S) (concat (map (\<lambda>kind. filter (?C kind) ps) cat))"
      by (simp add: map_concat comp_def)
    finally show ?thesis by (simp only: filtered_def kept)
  qed
  have second: "filtered S cat (protocolsEnabled ?s) (form_current ?s) =
      [p. kind \<leftarrow> cat, p \<leftarrow> ps, ?C kind p]"
    if num: "\<forall>p \<in> set ps. \<exists>n. get_prop p ''port'' = JNum n"
  proof -
    have "map (with_numeric_port S) (filter (?C kind) ps) = filter (?C kind) ps" for kind
      using num with_numeric_port_numeric[of _ _ S] by (intro map_idI) auto
    then have "map (with_numeric_port S) (concat (map (\<lambda>kind. filter (?C kind) ps) cat)) =
               concat (map (\<lambda>kind. filter (?C kind) ps) cat)"
      by (simp add: map_concat comp_def)
    moreover have "[p. kind \<leftarrow> cat, p \<leftarrow> ps, ?C kind p] =
          concat (map (\<lambda>kind. map (\<lambda>p. p) (filter (?C kind) ps)) cat)"
      by (simp only: concat_map_if)
    ultimately show ?thesis by (simp add: filtered_def kept)
  qed
  have third: "map protocols (submitted (handleSubmit S cat onSubmit (form_current ?s) ?s)) =
      map protocols (submitted s) @
      [Some (filtered S cat (protocolsEnabled ?s) (form_current ?s))]"
    if "filtered S cat (protocolsEnabled ?s) (form_current ?s) \<noteq> []"
  proof -
    have "submitted ?s = submitted s" by (simp add: useEffect_def)
    with that show ?thesis by (simp add: handleSubmit_def Let_def result_of_def)
  qed
  from first second third show ?thesis by blast
qed


text \<open>
  The stored node comes back with its shadowsocks and trojan configs as stored; hysteria2,
  on port 70000, had no valid port.
\<close>

theorem load_then_submit_round_trip_witness:
  "filtered no_strings PROTOCOLS
     (protocolsEnabled (useEffect no_strings PROTOCOLS getProtocolDefaultConfig
        (Some stored_node) (mounted (Some stored_node))))
     (form_current (useEffect no_strings PROTOCOLS getProtocolDefaultConfig
        (Some stored_node) (mounted (Some stored_node)))) =
     [stored_shadowsocks, stored_trojan]
   \<and> map protocols (submitted (handleSubmit no_strings PROTOCOLS (\<lambda>result. True)
        (form_current (useEffect no_strings PROTOCOLS getProtocolDefaultConfig
           (Some stored_node) (mounted (Some stored_node))))
        (useEffect no_strings PROTOCOLS getProtocolDefaultConfig
           (Some stored_node) (mounted (Some stored_node))))) =
     [Some [stored_shadowsocks, stored_trojan]]"
proof -
  let ?ps = "[stored_shadowsocks, stored_trojan, stored_hysteria2]"
  let ?s = "useEffect no_strings PROTOCOLS getProtocolDefaultConfig
              (Some stored_node) (mounted (Some stored_node))"
  have ps: "init_protocols stored_node = Some ?ps" by (simp add: stored_node_def)
  have one: "distinct (map (\<lambda>p. get_prop p ''type'') ?ps)"
    by (simp add: stored_defs get_prop_def)
  have named: "[] \<notin> set PROTOCOLS" by (simp add: PROTOCOLS_def)
  have num: "\<forall>p \<in> set ?ps. \<exists>n. get_prop p ''port'' = JNum n"
    by (simp add: stored_defs get_prop_def)
  have sub: "submitted (mounted (Some stored_node)) = []" by (simp add: mounted_def Let_def)
  note rt = load_then_submit_round_trip[OF ps one named, of no_strings getProtocolDefaultConfig
      "mounted (Some stored_node)" "\<lambda>result. True"]
  have kept: "filtered no_strings PROTOCOLS (protocolsEnabled ?s) (form_current ?s) =
      [stored_shadowsocks, stored_trojan]"
  proof -
    from rt num have "filtered no_strings PROTOCOLS (protocolsEnabled ?s) (form_current ?s) =
        [p. kind \<leftarrow> PROTOCOLS, p \<leftarrow> ?ps,
           get_prop p ''type'' = JStr kind \<and> truthy (get_prop p ''port'') \<and>
           (\<exists>r. Number no_strings (get_prop p ''port'') = Fin r \<and> 0 < r \<and> r \<le> 65535)]"
      by blast
    also have "\<dots> = [stored_shadowsocks, stored_trojan]"
      by (simp add: PROTOCOLS_def stored_defs get_prop_def)
    finally show ?thesis .
  qed
  with rt sub show ?thesis by simp
qed

end
